theory Spec2Isabelle
  imports Main
begin

section \<open>Data model (include/bank.h and db.sql)\<close>

text \<open>
  Money is a DECIMAL(15,2) column in the store and a double in the C++ interface. The model
  counts hundredths as an unbounded integer: rounding of a double to two decimals and the
  upper bound of the column are outside the model.
\<close>

type_synonym money = int

text \<open>The struct returned by getAccount.\<close>

record Account =
  a_id :: int
  a_customer_id :: int
  a_type :: string
  a_balance :: money

text \<open>A row of table customers; customer_id is the primary key.\<close>

record customer_row =
  c_id :: int
  c_name :: string
  c_email :: string
  c_phone :: string

text \<open>A row of table accounts, stored under its primary key account_id.\<close>

record account_row =
  r_customer_id :: int
  r_type :: string
  r_balance :: money

text \<open>The ENUM column of table transactions.\<close>

datatype txn_type = DEPOSIT | WITHDRAW | TRANSFER

text \<open>
  A row of table transactions, with the four columns the INSERT statements of the program
  write. transaction_id and created_at are filled in by the store and read by no operation
  modelled here.
\<close>

record transaction_row =
  t_account_id :: int
  t_type :: txn_type
  t_amount :: money
  t_details :: string

record tables =
  customers :: "customer_row list"
  accounts :: "int \<rightharpoonup> account_row"
  transactions :: "transaction_row list"

section \<open>The store behind one connection\<close>

text \<open>
  The store is the external MySQL server reached through \<open>impl->conn\<close>. A connection sees
  the tables in \<open>working\<close>; \<open>committed\<close> is what is durable. With autocommit on, every
  statement is committed at once; with autocommit off, statements change \<open>working\<close> only,
  \<open>commit\<close> makes \<open>working\<close> durable and \<open>rollback\<close> returns to \<open>committed\<close>. Turning
  autocommit on commits what is pending. The AUTO_INCREMENT counters and LAST_INSERT_ID are
  not transactional. The foreign keys and primary keys of db.sql are enforced. A statement
  that raises has no effect of its own.
\<close>

record conn =
  committed :: tables
  working :: tables
  autocommit :: bool
  next_customer_id :: int
  next_account_id :: int
  last_insert_id :: int

text \<open>
  Every call into the store may raise sql::SQLException. The places of one operation where
  this can happen are named after the statement objects of the source; a fault plan says at
  which of them the store raises during the call.
\<close>

datatype site =
    Get1 | Get2
  | AutoCommitOff | PS1 | PS2 | PS3 | PS4 | Commit | AutoCommitOn
  | Rollback | AutoCommitRestore
  | PS | ST

type_synonym faults = "site \<Rightarrow> bool"

definition no_faults :: faults where
  "no_faults = (\<lambda>s. False)"

definition only_fault :: "site \<Rightarrow> faults" where
  "only_fault k = (\<lambda>s. s = k)"

text \<open>A statement either raises, leaving the connection as it was, or completes.\<close>

datatype outcome = Threw conn | Done conn

definition apply_write :: "conn \<Rightarrow> tables \<Rightarrow> conn" where
  "apply_write c t =
     (if autocommit c then c\<lparr>working := t, committed := t\<rparr> else c\<lparr>working := t\<rparr>)"

definition setAutoCommit :: "faults \<Rightarrow> site \<Rightarrow> bool \<Rightarrow> conn \<Rightarrow> outcome" where
  "setAutoCommit F s b c =
     (if F s then Threw c
      else if b then Done (c\<lparr>autocommit := True, committed := working c\<rparr>)
      else Done (c\<lparr>autocommit := False\<rparr>))"

definition commit :: "faults \<Rightarrow> site \<Rightarrow> conn \<Rightarrow> outcome" where
  "commit F s c = (if F s then Threw c else Done (c\<lparr>committed := working c\<rparr>))"

definition rollback :: "faults \<Rightarrow> site \<Rightarrow> conn \<Rightarrow> outcome" where
  "rollback F s c = (if F s then Threw c else Done (c\<lparr>working := committed c\<rparr>))"

text \<open>UPDATE accounts SET balance = balance + ? WHERE account_id = ? (no row: nothing changes).\<close>

definition update_add :: "faults \<Rightarrow> site \<Rightarrow> money \<Rightarrow> int \<Rightarrow> conn \<Rightarrow> outcome" where
  "update_add F s amount account_id c =
     (if F s then Threw c
      else case accounts (working c) account_id of
        None \<Rightarrow> Done c
      | Some r \<Rightarrow>
          Done (apply_write c ((working c)\<lparr>accounts :=
            (accounts (working c))(account_id \<mapsto> r\<lparr>r_balance := r_balance r + amount\<rparr>)\<rparr>)))"

text \<open>UPDATE accounts SET balance = balance - ? WHERE account_id = ?\<close>

definition update_sub :: "faults \<Rightarrow> site \<Rightarrow> money \<Rightarrow> int \<Rightarrow> conn \<Rightarrow> outcome" where
  "update_sub F s amount account_id c =
     (if F s then Threw c
      else case accounts (working c) account_id of
        None \<Rightarrow> Done c
      | Some r \<Rightarrow>
          Done (apply_write c ((working c)\<lparr>accounts :=
            (accounts (working c))(account_id \<mapsto> r\<lparr>r_balance := r_balance r - amount\<rparr>)\<rparr>)))"

text \<open>
  INSERT INTO transactions(account_id,type,amount,details): the foreign key on account_id
  makes the store raise when no such account exists.
\<close>

definition insert_transaction ::
  "faults \<Rightarrow> site \<Rightarrow> int \<Rightarrow> txn_type \<Rightarrow> money \<Rightarrow> string \<Rightarrow> conn \<Rightarrow> outcome" where
  "insert_transaction F s account_id ty amount details c =
     (if F s then Threw c
      else if accounts (working c) account_id = None then Threw c
      else Done (apply_write c ((working c)\<lparr>transactions := transactions (working c) @
        [\<lparr>t_account_id = account_id, t_type = ty, t_amount = amount, t_details = details\<rparr>]\<rparr>)))"

text \<open>
  INSERT INTO customers(name,email,phone): the key is the AUTO_INCREMENT counter; a key
  already present violates the primary key.
\<close>

definition insert_customer ::
  "faults \<Rightarrow> site \<Rightarrow> string \<Rightarrow> string \<Rightarrow> string \<Rightarrow> conn \<Rightarrow> outcome" where
  "insert_customer F s name email phone c =
     (if F s then Threw c
      else if next_customer_id c \<in> c_id ` set (customers (working c)) then Threw c
      else Done ((apply_write c ((working c)\<lparr>customers := customers (working c) @
        [\<lparr>c_id = next_customer_id c, c_name = name, c_email = email, c_phone = phone\<rparr>]\<rparr>))
          \<lparr>next_customer_id := next_customer_id c + 1, last_insert_id := next_customer_id c\<rparr>))"

text \<open>
  INSERT INTO accounts(customer_id,account_type,balance) VALUES(?,?,0.0): the foreign key on
  customer_id makes the store raise when no such customer exists.
\<close>

definition insert_account :: "faults \<Rightarrow> site \<Rightarrow> int \<Rightarrow> string \<Rightarrow> conn \<Rightarrow> outcome" where
  "insert_account F s customer_id ty c =
     (if F s then Threw c
      else if customer_id \<notin> c_id ` set (customers (working c)) then Threw c
      else if accounts (working c) (next_account_id c) \<noteq> None then Threw c
      else Done ((apply_write c ((working c)\<lparr>accounts := (accounts (working c))
        (next_account_id c \<mapsto> \<lparr>r_customer_id = customer_id, r_type = ty, r_balance = 0\<rparr>)\<rparr>))
          \<lparr>next_account_id := next_account_id c + 1, last_insert_id := next_account_id c\<rparr>))"

text \<open>SELECT LAST_INSERT_ID() as id\<close>

definition select_last_insert_id :: "faults \<Rightarrow> site \<Rightarrow> conn \<Rightarrow> int option" where
  "select_last_insert_id F s c = (if F s then None else Some (last_insert_id c))"

text \<open>The statements of a try block run in order until one raises.\<close>

fun run_stmts :: "(conn \<Rightarrow> outcome) list \<Rightarrow> conn \<Rightarrow> outcome" where
  "run_stmts [] c = Done c"
| "run_stmts (s # ss) c = (case s c of Threw c' \<Rightarrow> Threw c' | Done c' \<Rightarrow> run_stmts ss c')"

section \<open>Bank (src/bank.cpp)\<close>

text \<open>Decimal text of an integer, as \<open>operator<<\<close> prints it.\<close>

fun show_nat :: "nat \<Rightarrow> string" where
  "show_nat n =
     (if n < 10 then [char_of (48 + n)]
      else show_nat (n div 10) @ [char_of (48 + n mod 10)])"

declare show_nat.simps [simp del]

definition show_int :: "int \<Rightarrow> string" where
  "show_int i = (if i < 0 then CHR ''-'' # show_nat (nat (- i)) else show_nat (nat i))"

text \<open>
  createCustomer (lines 200-216): no check of the arguments; the inserted key is read back
  with LAST_INSERT_ID, and any SQLException gives -1.
\<close>

definition createCustomer ::
  "faults \<Rightarrow> conn \<Rightarrow> string \<Rightarrow> string \<Rightarrow> string \<Rightarrow> int \<times> conn" where
  "createCustomer F c name email phone =
     (case insert_customer F PS name email phone c of
        Threw c' \<Rightarrow> (- 1, c')
      | Done c' \<Rightarrow>
          (case select_last_insert_id F ST c' of
             None \<Rightarrow> (- 1, c')
           | Some i \<Rightarrow> (i, c')))"

text \<open>createAccount (lines 256-271).\<close>

definition createAccount :: "faults \<Rightarrow> conn \<Rightarrow> int \<Rightarrow> string \<Rightarrow> int \<times> conn" where
  "createAccount F c customer_id ty =
     (case insert_account F PS customer_id ty c of
        Threw c' \<Rightarrow> (- 1, c')
      | Done c' \<Rightarrow>
          (case select_last_insert_id F ST c' of
             None \<Rightarrow> (- 1, c')
           | Some i \<Rightarrow> (i, c')))"

text \<open>
  getAccount (lines 273-290): the struct starts with id -1 and is filled from the row when
  there is one; a SQLException is caught inside and leaves id -1. The other fields are
  uninitialised in the source when id is -1 and no caller reads them then; the model puts
  0 and the empty string there. The site names the call, so that each call can fault on
  its own.
\<close>

definition getAccount :: "faults \<Rightarrow> site \<Rightarrow> conn \<Rightarrow> int \<Rightarrow> Account" where
  "getAccount F s c account_id =
     (if F s then \<lparr>a_id = - 1, a_customer_id = 0, a_type = [], a_balance = 0\<rparr>
      else case accounts (working c) account_id of
        None \<Rightarrow> \<lparr>a_id = - 1, a_customer_id = 0, a_type = [], a_balance = 0\<rparr>
      | Some r \<Rightarrow> \<lparr>a_id = account_id, a_customer_id = r_customer_id r,
                   a_type = r_type r, a_balance = r_balance r\<rparr>)"

text \<open>
  The catch block shared by deposit, withdraw and transfer:
  \<open>try { rollback(); setAutoCommit(true); } catch(...){}\<close>.
\<close>

definition on_sql_exception :: "faults \<Rightarrow> conn \<Rightarrow> conn" where
  "on_sql_exception F c =
     (case run_stmts [rollback F Rollback, setAutoCommit F AutoCommitRestore True] c of
        Threw c' \<Rightarrow> c'
      | Done c' \<Rightarrow> c')"

text \<open>The try block: true when every statement completes, else the catch block and false.\<close>

definition try_txn :: "faults \<Rightarrow> (conn \<Rightarrow> outcome) list \<Rightarrow> conn \<Rightarrow> bool \<times> conn" where
  "try_txn F stmts c =
     (case run_stmts stmts c of
        Done c' \<Rightarrow> (True, c')
      | Threw c' \<Rightarrow> (False, on_sql_exception F c'))"

text \<open>deposit (lines 313-338).\<close>

definition deposit_stmts :: "faults \<Rightarrow> int \<Rightarrow> money \<Rightarrow> (conn \<Rightarrow> outcome) list" where
  "deposit_stmts F account_id amount =
     [setAutoCommit F AutoCommitOff False,
      update_add F PS1 amount account_id,
      insert_transaction F PS2 account_id DEPOSIT amount ''Deposit via app'',
      commit F Commit,
      setAutoCommit F AutoCommitOn True]"

definition deposit :: "faults \<Rightarrow> conn \<Rightarrow> int \<Rightarrow> money \<Rightarrow> bool \<times> conn" where
  "deposit F c account_id amount =
     (if amount \<le> 0 then (False, c)
      else try_txn F (deposit_stmts F account_id amount) c)"

text \<open>withdraw (lines 340-370).\<close>

definition withdraw_stmts :: "faults \<Rightarrow> int \<Rightarrow> money \<Rightarrow> (conn \<Rightarrow> outcome) list" where
  "withdraw_stmts F account_id amount =
     [setAutoCommit F AutoCommitOff False,
      update_sub F PS1 amount account_id,
      insert_transaction F PS2 account_id WITHDRAW amount ''Withdrawal via app'',
      commit F Commit,
      setAutoCommit F AutoCommitOn True]"

definition withdraw :: "faults \<Rightarrow> conn \<Rightarrow> int \<Rightarrow> money \<Rightarrow> bool \<times> conn" where
  "withdraw F c account_id amount =
     (if amount \<le> 0 then (False, c)
      else let a = getAccount F Get1 c account_id in
        if a_id a < 0 then (False, c)
        else if a_balance a < amount then (False, c)
        else try_txn F (withdraw_stmts F account_id amount) c)"

text \<open>transfer (lines 372-419).\<close>

definition transfer_stmts :: "faults \<Rightarrow> int \<Rightarrow> int \<Rightarrow> money \<Rightarrow> (conn \<Rightarrow> outcome) list" where
  "transfer_stmts F from_account_id to_account_id amount =
     [setAutoCommit F AutoCommitOff False,
      update_sub F PS1 amount from_account_id,
      update_add F PS2 amount to_account_id,
      insert_transaction F PS3 from_account_id TRANSFER amount
        (''Transfer to account '' @ show_int to_account_id),
      insert_transaction F PS4 to_account_id DEPOSIT amount
        (''Transfer from account '' @ show_int from_account_id),
      commit F Commit,
      setAutoCommit F AutoCommitOn True]"

definition transfer :: "faults \<Rightarrow> conn \<Rightarrow> int \<Rightarrow> int \<Rightarrow> money \<Rightarrow> bool \<times> conn" where
  "transfer F c from_account_id to_account_id amount =
     (if amount \<le> 0 then (False, c)
      else let a_from = getAccount F Get1 c from_account_id;
               a_to = getAccount F Get2 c to_account_id in
        if a_id a_from < 0 \<or> a_id a_to < 0 then (False, c)
        else if a_balance a_from < amount then (False, c)
        else try_txn F (transfer_stmts F from_account_id to_account_id amount) c)"

section \<open>Vocabulary of the properties\<close>

text \<open>A fault plan is quiet on a list of sites when the store raises at none of them.\<close>

definition quiet :: "faults \<Rightarrow> site list \<Rightarrow> bool" where
  "quiet F ss = list_all (\<lambda>s. \<not> F s) ss"

text \<open>The sites of the try block of deposit and withdraw, and of transfer.\<close>

definition txn_sites :: "site list" where
  "txn_sites = [AutoCommitOff, PS1, PS2, Commit, AutoCommitOn]"

definition transfer_sites :: "site list" where
  "transfer_sites = [AutoCommitOff, PS1, PS2, PS3, PS4, Commit, AutoCommitOn]"

text \<open>The connection after a committed unit that produced tables \<open>t\<close>.\<close>

definition settled :: "conn \<Rightarrow> tables \<Rightarrow> conn" where
  "settled c t = c\<lparr>committed := t, working := t, autocommit := True\<rparr>"

text \<open>The balance column of an account, when the row exists.\<close>

definition balance_of :: "tables \<Rightarrow> int \<Rightarrow> money option" where
  "balance_of t account_id = map_option r_balance (accounts t account_id)"

text \<open>A small store used to evaluate the operations: one customer with two accounts.\<close>

definition demo_tables :: tables where
  "demo_tables =
     \<lparr>customers = [\<lparr>c_id = 1, c_name = ''Alice'', c_email = ''a@x.com'', c_phone = ''555-0100''\<rparr>],
      accounts = [10 \<mapsto> \<lparr>r_customer_id = 1, r_type = ''SAVINGS'', r_balance = 5000\<rparr>,
                  11 \<mapsto> \<lparr>r_customer_id = 1, r_type = ''CURRENT'', r_balance = 0\<rparr>],
      transactions = [\<lparr>t_account_id = 10, t_type = DEPOSIT, t_amount = 5000,
                       t_details = ''Deposit via app''\<rparr>]\<rparr>"

definition demo :: conn where
  "demo = \<lparr>committed = demo_tables, working = demo_tables, autocommit = True,
            next_customer_id = 2, next_account_id = 12, last_insert_id = 11\<rparr>"

text \<open>The two rows a transfer appends to the log (lines 391-409).\<close>

definition transfer_rows :: "int \<Rightarrow> int \<Rightarrow> money \<Rightarrow> transaction_row list" where
  "transfer_rows from_id to_id amount =
     [\<lparr>t_account_id = from_id, t_type = TRANSFER, t_amount = amount,
        t_details = ''Transfer to account '' @ show_int to_id\<rparr>,
      \<lparr>t_account_id = to_id, t_type = DEPOSIT, t_amount = amount,
        t_details = ''Transfer from account '' @ show_int from_id\<rparr>]"

text \<open>Lowering and raising the balance of one account, when it exists.\<close>

definition debit :: "int \<Rightarrow> money \<Rightarrow> (int \<rightharpoonup> account_row) \<Rightarrow> (int \<rightharpoonup> account_row)" where
  "debit account_id amount m =
     (case m account_id of
        None \<Rightarrow> m
      | Some r \<Rightarrow> m(account_id \<mapsto> r\<lparr>r_balance := r_balance r - amount\<rparr>))"

definition credit :: "int \<Rightarrow> money \<Rightarrow> (int \<rightharpoonup> account_row) \<Rightarrow> (int \<rightharpoonup> account_row)" where
  "credit account_id amount m =
     (case m account_id of
        None \<Rightarrow> m
      | Some r \<Rightarrow> m(account_id \<mapsto> r\<lparr>r_balance := r_balance r + amount\<rparr>))"

text \<open>The store after db.sql has run: three empty tables, counters at 1.\<close>

definition fresh :: conn where
  "fresh =
     \<lparr>committed = \<lparr>customers = [], accounts = Map.empty, transactions = []\<rparr>,
      working = \<lparr>customers = [], accounts = Map.empty, transactions = []\<rparr>,
      autocommit = True, next_customer_id = 1, next_account_id = 1, last_insert_id = 0\<rparr>"

text \<open>The calls of the public interface, and a sequence of calls on one connection, each
  with its own fault plan.\<close>

datatype op =
    CreateCustomer string string string
  | CreateAccount int string
  | Deposit int money
  | Withdraw int money
  | Transfer int int money

fun perform :: "faults \<Rightarrow> op \<Rightarrow> conn \<Rightarrow> conn" where
  "perform F (CreateCustomer name email phone) c = snd (createCustomer F c name email phone)"
| "perform F (CreateAccount customer_id ty) c = snd (createAccount F c customer_id ty)"
| "perform F (Deposit account_id amount) c = snd (deposit F c account_id amount)"
| "perform F (Withdraw account_id amount) c = snd (withdraw F c account_id amount)"
| "perform F (Transfer from_id to_id amount) c = snd (transfer F c from_id to_id amount)"

fun run :: "(faults \<times> op) list \<Rightarrow> conn \<Rightarrow> conn" where
  "run [] c = c"
| "run ((F, x) # xs) c = run xs (perform F x c)"

text \<open>No account of the tables has a negative balance.\<close>

definition no_overdraft :: "tables \<Rightarrow> bool" where
  "no_overdraft t = (\<forall>i r. accounts t i = Some r \<longrightarrow> 0 \<le> r_balance r)"

text \<open>The connection a statement leaves, whether it raised or not.\<close>

definition conn_of :: "outcome \<Rightarrow> conn" where
  "conn_of x = (case x of Threw c \<Rightarrow> c | Done c \<Rightarrow> c)"

text \<open>A statement preserves a property of connections.\<close>

definition preserves :: "(conn \<Rightarrow> bool) \<Rightarrow> (conn \<Rightarrow> outcome) \<Rightarrow> bool" where
  "preserves P st = (\<forall>c. P c \<longrightarrow> P (conn_of (st c)))"

text \<open>Neither the durable tables nor the connection's view hold a negative balance.\<close>

definition solvent :: "conn \<Rightarrow> bool" where
  "solvent c = (no_overdraft (working c) \<and> no_overdraft (committed c))"

text \<open>A sequence of calls on the empty store, one of them failing partway.\<close>

definition demo_ops :: "(faults \<times> op) list" where
  "demo_ops =
     [(no_faults, CreateCustomer ''Alice'' ''a@x.com'' ''555-0100''),
      (no_faults, CreateAccount 1 ''SAVINGS''),
      (no_faults, CreateAccount 1 ''CURRENT''),
      (no_faults, Deposit 1 5000),
      (no_faults, Withdraw 1 2000),
      (only_fault PS2, Transfer 1 2 1000),
      (no_faults, Transfer 1 2 1000),
      (no_faults, Withdraw 2 5000)]"

text \<open>The reconciliation sum of the specification: DEPOSIT rows count positive, WITHDRAW
  and TRANSFER rows negative.\<close>

fun signed_amount :: "transaction_row \<Rightarrow> money" where
  "signed_amount x =
     (case t_type x of
        DEPOSIT \<Rightarrow> t_amount x
      | WITHDRAW \<Rightarrow> - t_amount x
      | TRANSFER \<Rightarrow> - t_amount x)"

definition ledger_sum :: "tables \<Rightarrow> int \<Rightarrow> money" where
  "ledger_sum t account_id =
     sum_list (map signed_amount (filter (\<lambda>x. t_account_id x = account_id) (transactions t)))"

text \<open>Every balance is the signed sum of the rows on its account (an absent account has
  no rows that sum to anything but zero).\<close>

definition reconciled :: "tables \<Rightarrow> bool" where
  "reconciled t =
     (\<forall>i. (case accounts t i of None \<Rightarrow> 0 | Some r \<Rightarrow> r_balance r) = ledger_sum t i)"

text \<open>Both the durable tables and the connection's view are reconciled.\<close>

definition consistent :: "conn \<Rightarrow> bool" where
  "consistent c = (reconciled (working c) \<and> reconciled (committed c))"

text \<open>The tables after the whole unit of a deposit, a withdrawal and a transfer.\<close>

definition after_deposit :: "int \<Rightarrow> money \<Rightarrow> tables \<Rightarrow> tables" where
  "after_deposit account_id amount t =
     t\<lparr>accounts := credit account_id amount (accounts t),
       transactions := transactions t @
         [\<lparr>t_account_id = account_id, t_type = DEPOSIT, t_amount = amount,
           t_details = ''Deposit via app''\<rparr>]\<rparr>"

definition after_withdraw :: "int \<Rightarrow> money \<Rightarrow> tables \<Rightarrow> tables" where
  "after_withdraw account_id amount t =
     t\<lparr>accounts := debit account_id amount (accounts t),
       transactions := transactions t @
         [\<lparr>t_account_id = account_id, t_type = WITHDRAW, t_amount = amount,
           t_details = ''Withdrawal via app''\<rparr>]\<rparr>"

definition after_transfer :: "int \<Rightarrow> int \<Rightarrow> money \<Rightarrow> tables \<Rightarrow> tables" where
  "after_transfer from_id to_id amount t =
     t\<lparr>accounts := credit to_id amount (debit from_id amount (accounts t)),
       transactions := transactions t @ transfer_rows from_id to_id amount\<rparr>"

text \<open>What a unit between setAutoCommit(false) and commit leaves behind.\<close>

definition unit_result :: "conn \<Rightarrow> tables \<Rightarrow> conn \<Rightarrow> bool" where
  "unit_result c t c' =
     ((working c' = committed c \<and> committed c' = committed c) \<or>
      (working c' = t \<and> committed c' = t))"

text \<open>
  The part of withdraw before its transaction (lines 341-346): the amount test and the
  balance check on the struct read by getAccount.
\<close>

definition withdraw_check :: "faults \<Rightarrow> conn \<Rightarrow> int \<Rightarrow> money \<Rightarrow> bool" where
  "withdraw_check F c account_id amount =
     (\<not> amount \<le> 0 \<and>
      (let a = getAccount F Get1 c account_id in \<not> a_id a < 0 \<and> \<not> a_balance a < amount))"

text \<open>
  Several callers run withdraw on the same account, each on a connection of its own. A
  caller is before its check, between check and transaction, or has returned. The check is
  one SELECT outside any transaction; the unit from setAutoCommit(false) to commit (lines
  348-363) is taken as one atomic step, which is the most the row locks of the store can
  give. Between steps no caller has a transaction open, so one connection value in
  autocommit mode stands for the store as every caller sees it. The store raises no fault.
\<close>

datatype phase = Checking | Writing | Returned bool

record system =
  server :: conn
  phases :: "phase list"

text \<open>One step of caller \<open>k\<close>.\<close>

definition client_step :: "int \<Rightarrow> money \<Rightarrow> system \<Rightarrow> nat \<Rightarrow> system" where
  "client_step account_id amount sys k =
     (if k < length (phases sys) then
        (case phases sys ! k of
           Checking \<Rightarrow>
             sys\<lparr>phases := (phases sys)
               [k := if withdraw_check no_faults (server sys) account_id amount
                     then Writing else Returned False]\<rparr>
         | Writing \<Rightarrow>
             (case try_txn no_faults (withdraw_stmts no_faults account_id amount) (server sys) of
                (ok, c') \<Rightarrow> sys\<lparr>server := c', phases := (phases sys)[k := Returned ok]\<rparr>)
         | Returned b \<Rightarrow> sys)
      else sys)"

text \<open>Two callers, stepped in the order the schedule names them.\<close>

definition interleave :: "int \<Rightarrow> money \<Rightarrow> nat list \<Rightarrow> conn \<Rightarrow> system" where
  "interleave account_id amount sch c =
     foldl (client_step account_id amount) \<lparr>server = c, phases = [Checking, Checking]\<rparr> sch"

text \<open>What the callers returned and the durable balance of the account.\<close>

definition results :: "int \<Rightarrow> system \<Rightarrow> phase list \<times> money option" where
  "results account_id sys = (phases sys, balance_of (committed (server sys)) account_id)"

text \<open>The small store with 100.00 on account 11.\<close>

definition hundred :: conn where
  "hundred =
     \<lparr>committed = demo_tables\<lparr>accounts := (accounts demo_tables)
        (11 \<mapsto> \<lparr>r_customer_id = 1, r_type = ''CURRENT'', r_balance = 10000\<rparr>)\<rparr>,
      working = demo_tables\<lparr>accounts := (accounts demo_tables)
        (11 \<mapsto> \<lparr>r_customer_id = 1, r_type = ''CURRENT'', r_balance = 10000\<rparr>)\<rparr>,
      autocommit = True, next_customer_id = 2, next_account_id = 12, last_insert_id = 11\<rparr>"

section \<open>Properties\<close>

lemma demo_simps:
  "working demo = demo_tables" "committed demo = demo_tables" "autocommit demo"
  "accounts demo_tables 10 = Some \<lparr>r_customer_id = 1, r_type = ''SAVINGS'', r_balance = 5000\<rparr>"
  "accounts demo_tables 11 = Some \<lparr>r_customer_id = 1, r_type = ''CURRENT'', r_balance = 0\<rparr>"
  "accounts demo_tables 99 = None"
  "length (transactions demo_tables) = 1"
  by (simp_all add: demo_def demo_tables_def)

lemma quiet_no_faults: "quiet no_faults ss"
  by (induction ss) (simp_all add: quiet_def no_faults_def)

lemmas stmt_defs = setAutoCommit_def commit_def rollback_def update_add_def update_sub_def
  insert_transaction_def apply_write_def on_sql_exception_def try_txn_def

subsection \<open>withdraw\<close>

lemma withdraw_nonpositive:
  "amount \<le> 0 \<Longrightarrow> withdraw F c account_id amount = (False, c)"
  by (simp add: withdraw_def)

lemma withdraw_missing:
  "accounts (working c) account_id = None \<Longrightarrow> withdraw F c account_id amount = (False, c)"
  by (simp add: withdraw_def getAccount_def Let_def)

lemma withdraw_insufficient:
  "accounts (working c) account_id = Some r \<Longrightarrow> r_balance r < amount \<Longrightarrow>
   withdraw F c account_id amount = (False, c)"
  by (simp add: withdraw_def getAccount_def Let_def)

lemma withdraw_ok:
  assumes "0 < amount" "0 \<le> account_id" "accounts (working c) account_id = Some r"
    "amount \<le> r_balance r" "quiet F (Get1 # txn_sites)"
  shows "withdraw F c account_id amount =
        (True, settled c ((working c)\<lparr>
           accounts := (accounts (working c))
             (account_id \<mapsto> r\<lparr>r_balance := r_balance r - amount\<rparr>),
           transactions := transactions (working c) @
             [\<lparr>t_account_id = account_id, t_type = WITHDRAW, t_amount = amount,
               t_details = ''Withdrawal via app''\<rparr>]\<rparr>))"
  using assms
  by (simp add: withdraw_def withdraw_stmts_def getAccount_def stmt_defs quiet_def
      txn_sites_def settled_def Let_def)

text \<open>
  Claim C5. withdraw rejects an amount that is not positive; it declines and changes nothing
  when the account does not exist or its balance is below the amount (whatever the store
  does); otherwise, when the store raises no fault, it succeeds, lowers the balance of the
  account by the amount and appends exactly one WITHDRAW row of that amount. The source
  reads a negative id in the struct as "not found", and AUTO_INCREMENT keys are positive:
  hence the hypothesis that the identifier is not negative, here and below.
\<close>

theorem withdraw_spec:
  "(amount \<le> 0 \<longrightarrow> withdraw F c account_id amount = (False, c)) \<and>
   (accounts (working c) account_id = None \<longrightarrow> withdraw F c account_id amount = (False, c)) \<and>
   (\<forall>r. accounts (working c) account_id = Some r \<and> r_balance r < amount \<longrightarrow>
      withdraw F c account_id amount = (False, c)) \<and>
   (\<forall>r. 0 < amount \<and> 0 \<le> account_id \<and> accounts (working c) account_id = Some r \<and>
        amount \<le> r_balance r \<and> quiet F (Get1 # txn_sites) \<longrightarrow>
      withdraw F c account_id amount =
        (True, settled c ((working c)\<lparr>
           accounts := (accounts (working c))
             (account_id \<mapsto> r\<lparr>r_balance := r_balance r - amount\<rparr>),
           transactions := transactions (working c) @
             [\<lparr>t_account_id = account_id, t_type = WITHDRAW, t_amount = amount,
               t_details = ''Withdrawal via app''\<rparr>]\<rparr>)))"
  using withdraw_nonpositive withdraw_missing withdraw_insufficient withdraw_ok
  by blast

theorem withdraw_spec_witness:
  "withdraw no_faults demo 10 0 = (False, demo) \<and>
   withdraw no_faults demo 99 100 = (False, demo) \<and>
   withdraw no_faults demo 11 100 = (False, demo) \<and>
   fst (withdraw no_faults demo 10 2000) = True \<and>
   balance_of (committed (snd (withdraw no_faults demo 10 2000))) 10 = Some 3000 \<and>
   length (transactions (committed (snd (withdraw no_faults demo 10 2000)))) = 2"
proof -
  have 1: "withdraw no_faults demo 10 0 = (False, demo)"
    using withdraw_spec [of 0 no_faults demo 10] by simp
  have 2: "withdraw no_faults demo 99 100 = (False, demo)"
    using withdraw_spec [of 100 no_faults demo 99] by (simp add: demo_simps)
  have 3: "withdraw no_faults demo 11 100 = (False, demo)"
    using withdraw_spec [of 100 no_faults demo 11] by (simp add: demo_simps)
  have 4: "withdraw no_faults demo 10 2000 =
     (True, settled demo (demo_tables\<lparr>
        accounts := (accounts demo_tables)
          (10 \<mapsto> \<lparr>r_customer_id = 1, r_type = ''SAVINGS'', r_balance = 3000\<rparr>),
        transactions := transactions demo_tables @
          [\<lparr>t_account_id = 10, t_type = WITHDRAW, t_amount = 2000,
            t_details = ''Withdrawal via app''\<rparr>]\<rparr>))"
    using withdraw_spec [of 2000 no_faults demo 10]
    by (simp add: demo_simps quiet_no_faults)
  show ?thesis
    using 1 2 3 4 by (simp add: settled_def balance_of_def demo_simps)
qed

subsection \<open>deposit\<close>

lemma deposit_nonpositive:
  "amount \<le> 0 \<Longrightarrow> deposit F c account_id amount = (False, c)"
  by (simp add: deposit_def)

lemma deposit_ok:
  assumes "0 < amount" "accounts (working c) account_id = Some r" "quiet F txn_sites"
  shows "deposit F c account_id amount =
    (True, settled c ((working c)\<lparr>
       accounts := (accounts (working c))
         (account_id \<mapsto> r\<lparr>r_balance := r_balance r + amount\<rparr>),
       transactions := transactions (working c) @
         [\<lparr>t_account_id = account_id, t_type = DEPOSIT, t_amount = amount,
           t_details = ''Deposit via app''\<rparr>]\<rparr>))"
  using assms
  by (simp add: deposit_def deposit_stmts_def stmt_defs quiet_def txn_sites_def settled_def)

lemma deposit_missing:
  assumes "0 < amount" "accounts (working c) account_id = None" "working c = committed c"
  shows "fst (deposit F c account_id amount) = False \<and>
    working (snd (deposit F c account_id amount)) = working c \<and>
    committed (snd (deposit F c account_id amount)) = committed c"
  using assms by (simp add: deposit_def deposit_stmts_def stmt_defs)

text \<open>
  Claim C6. deposit rejects an amount that is not positive without touching the store: the
  connection, hence every balance and the log, is unchanged and the result is false. For a
  positive amount on an existing account, when the store raises no fault, it raises the
  balance of that account by the amount and appends exactly one DEPOSIT row. When the
  account does not exist it reports false, whatever the store does, and the tables are as
  before: no row is added to the log (the INSERT violates the foreign key).
\<close>

theorem deposit_spec:
  "(amount \<le> 0 \<longrightarrow> deposit F c account_id amount = (False, c)) \<and>
   (\<forall>r. 0 < amount \<and> accounts (working c) account_id = Some r \<and> quiet F txn_sites \<longrightarrow>
      deposit F c account_id amount =
        (True, settled c ((working c)\<lparr>
           accounts := (accounts (working c))
             (account_id \<mapsto> r\<lparr>r_balance := r_balance r + amount\<rparr>),
           transactions := transactions (working c) @
             [\<lparr>t_account_id = account_id, t_type = DEPOSIT, t_amount = amount,
               t_details = ''Deposit via app''\<rparr>]\<rparr>))) \<and>
   (0 < amount \<and> accounts (working c) account_id = None \<and> working c = committed c \<longrightarrow>
      fst (deposit F c account_id amount) = False \<and>
      working (snd (deposit F c account_id amount)) = working c \<and>
      committed (snd (deposit F c account_id amount)) = committed c)"
  using deposit_nonpositive [of amount F c account_id]
    deposit_ok [of amount c account_id _ F]
    deposit_missing [of amount c account_id F]
  by blast

theorem deposit_spec_witness:
  "deposit no_faults demo 10 (- 5) = (False, demo) \<and>
   deposit no_faults demo 10 0 = (False, demo) \<and>
   fst (deposit no_faults demo 10 2000) = True \<and>
   balance_of (committed (snd (deposit no_faults demo 10 2000))) 10 = Some 7000 \<and>
   length (transactions (committed (snd (deposit no_faults demo 10 2000)))) = 2 \<and>
   fst (deposit no_faults demo 99 2000) = False \<and>
   working (snd (deposit no_faults demo 99 2000)) = demo_tables \<and>
   committed (snd (deposit no_faults demo 99 2000)) = demo_tables"
proof -
  have 1: "deposit no_faults demo 10 (- 5) = (False, demo)"
    using deposit_spec [of "- 5" no_faults demo 10] by simp
  have 2: "deposit no_faults demo 10 0 = (False, demo)"
    using deposit_spec [of 0 no_faults demo 10] by simp
  have 3: "deposit no_faults demo 10 2000 =
     (True, settled demo (demo_tables\<lparr>
        accounts := (accounts demo_tables)
          (10 \<mapsto> \<lparr>r_customer_id = 1, r_type = ''SAVINGS'', r_balance = 7000\<rparr>),
        transactions := transactions demo_tables @
          [\<lparr>t_account_id = 10, t_type = DEPOSIT, t_amount = 2000,
            t_details = ''Deposit via app''\<rparr>]\<rparr>))"
    using deposit_spec [of 2000 no_faults demo 10]
    by (simp add: demo_simps quiet_no_faults)
  have 4: "fst (deposit no_faults demo 99 2000) = False \<and>
      working (snd (deposit no_faults demo 99 2000)) = demo_tables \<and>
      committed (snd (deposit no_faults demo 99 2000)) = demo_tables"
    using deposit_spec [of 2000 no_faults demo 99]
    by (simp add: demo_simps)
  show ?thesis
    using 1 2 3 4 by (simp add: settled_def balance_of_def demo_simps)
qed

subsection \<open>transfer\<close>

lemma transfer_nonpositive:
  "amount \<le> 0 \<Longrightarrow> transfer F c from_id to_id amount = (False, c)"
  by (simp add: transfer_def)

lemma transfer_missing:
  "accounts (working c) from_id = None \<or> accounts (working c) to_id = None \<Longrightarrow>
   transfer F c from_id to_id amount = (False, c)"
  by (auto simp add: transfer_def getAccount_def Let_def)

lemma transfer_insufficient:
  "accounts (working c) from_id = Some r \<Longrightarrow> r_balance r < amount \<Longrightarrow>
   transfer F c from_id to_id amount = (False, c)"
  by (simp add: transfer_def getAccount_def Let_def)

lemma first_fault:
  assumes "F AutoCommitOff \<or> F PS1 \<or> F PS2 \<or> F PS3 \<or> F PS4 \<or> F Commit"
  obtains "F AutoCommitOff"
  | "\<not> F AutoCommitOff" "F PS1"
  | "\<not> F AutoCommitOff" "\<not> F PS1" "F PS2"
  | "\<not> F AutoCommitOff" "\<not> F PS1" "\<not> F PS2" "F PS3"
  | "\<not> F AutoCommitOff" "\<not> F PS1" "\<not> F PS2" "\<not> F PS3" "F PS4"
  | "\<not> F AutoCommitOff" "\<not> F PS1" "\<not> F PS2" "\<not> F PS3" "\<not> F PS4" "F Commit"
  using assms by blast

lemmas transfer_unfold = transfer_def transfer_stmts_def getAccount_def stmt_defs Let_def

lemma transfer_fault_any:
  assumes cl: "working c = committed c"
    and f: "F AutoCommitOff \<or> F PS1 \<or> F PS2 \<or> F PS3 \<or> F PS4 \<or> F Commit"
  shows "fst (transfer F c from_id to_id amount) = False \<and>
    committed (snd (transfer F c from_id to_id amount)) = committed c \<and>
    (\<not> F Rollback \<longrightarrow> working (snd (transfer F c from_id to_id amount)) = working c)"
  using f
proof (cases rule: first_fault)
  case 1
  then show ?thesis using cl by (simp add: transfer_unfold)
next
  case 2
  then show ?thesis using cl by (simp add: transfer_unfold)
next
  case 3
  then show ?thesis using cl by (simp add: transfer_unfold split: option.splits)
next
  case 4
  then show ?thesis using cl by (simp add: transfer_unfold split: option.splits)
next
  case 5
  then show ?thesis using cl by (simp add: transfer_unfold split: option.splits)
next
  case 6
  then show ?thesis using cl by (simp add: transfer_unfold split: option.splits)
qed

lemma transfer_ok:
  assumes "0 < amount" "0 \<le> from_id" "0 \<le> to_id"
    "accounts (working c) from_id = Some rf" "accounts (working c) to_id = Some rt"
    "amount \<le> r_balance rf" "quiet F (Get1 # Get2 # transfer_sites)"
  shows "transfer F c from_id to_id amount =
    (True, settled c ((working c)\<lparr>
       accounts := credit to_id amount (debit from_id amount (accounts (working c))),
       transactions := transactions (working c) @ transfer_rows from_id to_id amount\<rparr>))"
  using assms
  by (simp add: transfer_def transfer_stmts_def getAccount_def stmt_defs quiet_def
      transfer_sites_def settled_def Let_def transfer_rows_def debit_def credit_def)

lemma credit_debit_distinct:
  assumes "from_id \<noteq> to_id" "m from_id = Some rf" "m to_id = Some rt"
  shows "credit to_id amount (debit from_id amount m) from_id =
           Some (rf\<lparr>r_balance := r_balance rf - amount\<rparr>)"
    and "credit to_id amount (debit from_id amount m) to_id =
           Some (rt\<lparr>r_balance := r_balance rt + amount\<rparr>)"
  using assms by (simp_all add: credit_def debit_def)

lemma credit_debit_self:
  assumes "m account_id = Some r"
  shows "credit account_id amount (debit account_id amount m) = m"
  using assms by (auto simp add: credit_def debit_def)

text \<open>
  Claim C7. A transfer with a positive amount between existing accounts, the source holding
  at least the amount, and no fault of the store, reports true; the committed tables are the
  old ones with the source debited, then the destination credited, and exactly two rows
  appended to the log: a TRANSFER row on the source and a DEPOSIT row on the destination,
  both of the amount. For two different accounts the source balance is lower by the amount
  and the destination balance higher by the amount.
\<close>

theorem transfer_commit_effects:
  assumes "0 < amount" "0 \<le> from_id" "0 \<le> to_id"
    "accounts (working c) from_id = Some rf" "accounts (working c) to_id = Some rt"
    "amount \<le> r_balance rf" "quiet F (Get1 # Get2 # transfer_sites)"
  shows "transfer F c from_id to_id amount =
      (True, settled c ((working c)\<lparr>
         accounts := credit to_id amount (debit from_id amount (accounts (working c))),
         transactions := transactions (working c) @
           [\<lparr>t_account_id = from_id, t_type = TRANSFER, t_amount = amount,
              t_details = ''Transfer to account '' @ show_int to_id\<rparr>,
            \<lparr>t_account_id = to_id, t_type = DEPOSIT, t_amount = amount,
              t_details = ''Transfer from account '' @ show_int from_id\<rparr>]\<rparr>)) \<and>
    (from_id \<noteq> to_id \<longrightarrow>
       balance_of (committed (snd (transfer F c from_id to_id amount))) from_id =
         Some (r_balance rf - amount) \<and>
       balance_of (committed (snd (transfer F c from_id to_id amount))) to_id =
         Some (r_balance rt + amount))"
  using transfer_ok [OF assms] credit_debit_distinct [of from_id to_id "accounts (working c)" rf rt amount]
    assms(4,5)
  by (simp add: transfer_rows_def settled_def balance_of_def)

lemma show_int_small: "show_int 10 = ''10''" "show_int 11 = ''11''"
  by code_simp+

theorem transfer_commit_effects_witness:
  "fst (transfer no_faults demo 10 11 2000) = True \<and>
   balance_of (committed (snd (transfer no_faults demo 10 11 2000))) 10 = Some 3000 \<and>
   balance_of (committed (snd (transfer no_faults demo 10 11 2000))) 11 = Some 2000 \<and>
   transactions (committed (snd (transfer no_faults demo 10 11 2000))) =
     transactions demo_tables @
       [\<lparr>t_account_id = 10, t_type = TRANSFER, t_amount = 2000,
          t_details = ''Transfer to account 11''\<rparr>,
        \<lparr>t_account_id = 11, t_type = DEPOSIT, t_amount = 2000,
          t_details = ''Transfer from account 10''\<rparr>]"
proof -
  have q: "quiet no_faults (Get1 # Get2 # transfer_sites)"
    by (rule quiet_no_faults)
  have a10: "accounts (working demo) 10 =
      Some \<lparr>r_customer_id = 1, r_type = ''SAVINGS'', r_balance = 5000\<rparr>"
    and a11: "accounts (working demo) 11 =
      Some \<lparr>r_customer_id = 1, r_type = ''CURRENT'', r_balance = 0\<rparr>"
    by (simp_all add: demo_simps)
  have n: "(0::int) < 2000" "(0::int) \<le> 10" "(0::int) \<le> 11"
    "(2000::int) \<le> r_balance \<lparr>r_customer_id = 1, r_type = ''SAVINGS'', r_balance = 5000\<rparr>"
    by simp_all
  note T = transfer_commit_effects [OF n(1,2,3) a10 a11 n(4) q]
  from T [THEN conjunct1]
  have e: "fst (transfer no_faults demo 10 11 2000) = True"
    and t: "transactions (committed (snd (transfer no_faults demo 10 11 2000))) =
     transactions demo_tables @
       [\<lparr>t_account_id = 10, t_type = TRANSFER, t_amount = 2000,
          t_details = ''Transfer to account 11''\<rparr>,
        \<lparr>t_account_id = 11, t_type = DEPOSIT, t_amount = 2000,
          t_details = ''Transfer from account 10''\<rparr>]"
    by (simp_all add: settled_def demo_simps show_int_small)
  from T [THEN conjunct2]
  have b: "balance_of (committed (snd (transfer no_faults demo 10 11 2000))) 10 = Some 3000 \<and>
     balance_of (committed (snd (transfer no_faults demo 10 11 2000))) 11 = Some 2000"
    by simp
  from e t b show ?thesis
    by blast
qed

text \<open>
  Claim C10. A transfer from an existing account to itself with 0 < amount and amount at
  most the balance, and no fault of the store, reports true, leaves the accounts table as it
  was (the balance is unchanged) and appends exactly two rows on that account: one TRANSFER
  and one DEPOSIT, both of the amount.
\<close>

theorem self_transfer_permitted:
  assumes "0 \<le> account_id" "accounts (working c) account_id = Some r"
    "0 < amount" "amount \<le> r_balance r" "quiet F (Get1 # Get2 # transfer_sites)"
  shows "transfer F c account_id account_id amount =
      (True, settled c ((working c)\<lparr>
         transactions := transactions (working c) @
           [\<lparr>t_account_id = account_id, t_type = TRANSFER, t_amount = amount,
              t_details = ''Transfer to account '' @ show_int account_id\<rparr>,
            \<lparr>t_account_id = account_id, t_type = DEPOSIT, t_amount = amount,
              t_details = ''Transfer from account '' @ show_int account_id\<rparr>]\<rparr>)) \<and>
    balance_of (committed (snd (transfer F c account_id account_id amount))) account_id =
      Some (r_balance r)"
proof -
  have "transfer F c account_id account_id amount =
    (True, settled c ((working c)\<lparr>
       accounts := accounts (working c),
       transactions := transactions (working c) @ transfer_rows account_id account_id amount\<rparr>))"
    using transfer_ok [OF assms(3,1,1,2,2,4,5)]
      credit_debit_self [of "accounts (working c)" account_id r amount] assms(2)
    by simp
  then show ?thesis
    using assms(2) by (simp add: transfer_rows_def settled_def balance_of_def)
qed

theorem self_transfer_permitted_witness:
  "fst (transfer no_faults demo 10 10 2000) = True \<and>
   balance_of (committed (snd (transfer no_faults demo 10 10 2000))) 10 = Some 5000 \<and>
   transactions (committed (snd (transfer no_faults demo 10 10 2000))) =
     transactions demo_tables @
       [\<lparr>t_account_id = 10, t_type = TRANSFER, t_amount = 2000,
          t_details = ''Transfer to account 10''\<rparr>,
        \<lparr>t_account_id = 10, t_type = DEPOSIT, t_amount = 2000,
          t_details = ''Transfer from account 10''\<rparr>]"
proof -
  have q: "quiet no_faults (Get1 # Get2 # transfer_sites)"
    by (rule quiet_no_faults)
  have a10: "accounts (working demo) 10 =
      Some \<lparr>r_customer_id = 1, r_type = ''SAVINGS'', r_balance = 5000\<rparr>"
    by (simp add: demo_simps)
  have n: "(0::int) \<le> 10" "(0::int) < 2000"
    "(2000::int) \<le> r_balance \<lparr>r_customer_id = 1, r_type = ''SAVINGS'', r_balance = 5000\<rparr>"
    by simp_all
  note T = self_transfer_permitted [OF n(1) a10 n(2,3) q]
  from T [THEN conjunct1]
  have e: "fst (transfer no_faults demo 10 10 2000) = True"
    and t: "transactions (committed (snd (transfer no_faults demo 10 10 2000))) =
     transactions demo_tables @
       [\<lparr>t_account_id = 10, t_type = TRANSFER, t_amount = 2000,
          t_details = ''Transfer to account 10''\<rparr>,
        \<lparr>t_account_id = 10, t_type = DEPOSIT, t_amount = 2000,
          t_details = ''Transfer from account 10''\<rparr>]"
    by (simp_all add: settled_def demo_simps show_int_small)
  from T [THEN conjunct2]
  have b: "balance_of (committed (snd (transfer no_faults demo 10 10 2000))) 10 = Some 5000"
    by simp
  from e t b show ?thesis
    by blast
qed

lemma transfer_fault_clean:
  assumes cl: "working c = committed c" "autocommit c"
    and f: "F AutoCommitOff \<or> F PS1 \<or> F PS2 \<or> F PS3 \<or> F PS4 \<or> F Commit"
    and rb: "\<not> F Rollback" "\<not> F AutoCommitRestore"
  shows "transfer F c from_id to_id amount = (False, c)"
  using f
proof (cases rule: first_fault)
  case 1
  then show ?thesis using cl rb by (simp add: transfer_unfold)
next
  case 2
  then show ?thesis using cl rb by (simp add: transfer_unfold)
next
  case 3
  then show ?thesis using cl rb by (simp add: transfer_unfold split: option.splits)
next
  case 4
  then show ?thesis using cl rb by (simp add: transfer_unfold split: option.splits)
next
  case 5
  then show ?thesis using cl rb by (simp add: transfer_unfold split: option.splits)
next
  case 6
  then show ?thesis using cl rb by (simp add: transfer_unfold split: option.splits)
qed

text \<open>
  Claim C1. Let the store raise at one of the statements of the atomic unit of transfer, up
  to and including the commit (so also after the debit, the credit or the first INSERT have
  been applied). Then transfer reports false and the committed tables are those before the
  call; when the rollback itself does not raise, the tables the connection sees are those
  before the call as well, so both balances and the log are unchanged and no row is new;
  and on a connection in autocommit mode whose catch block completes, the connection is
  exactly as before the call.
\<close>

theorem transfer_fault_rolled_back:
  assumes "working c = committed c"
    and "F AutoCommitOff \<or> F PS1 \<or> F PS2 \<or> F PS3 \<or> F PS4 \<or> F Commit"
  shows "fst (transfer F c from_id to_id amount) = False \<and>
    committed (snd (transfer F c from_id to_id amount)) = committed c \<and>
    (\<not> F Rollback \<longrightarrow> working (snd (transfer F c from_id to_id amount)) = working c) \<and>
    (\<not> F Rollback \<and> \<not> F AutoCommitRestore \<and> autocommit c \<longrightarrow>
       transfer F c from_id to_id amount = (False, c))"
  using transfer_fault_any [OF assms] transfer_fault_clean [OF assms(1) _ assms(2)]
  by blast

text \<open>The state in which the fault of the witness below strikes: the source is debited.\<close>

lemma transfer_fault_midway:
  "run_stmts (transfer_stmts (only_fault PS2) 10 11 2000) demo =
     Threw (demo\<lparr>autocommit := False, working := demo_tables\<lparr>accounts := (accounts demo_tables)
       (10 \<mapsto> \<lparr>r_customer_id = 1, r_type = ''SAVINGS'', r_balance = 3000\<rparr>)\<rparr>\<rparr>)"
  by (simp add: transfer_stmts_def stmt_defs only_fault_def demo_simps)

theorem transfer_fault_rolled_back_witness:
  "transfer (only_fault PS2) demo 10 11 2000 = (False, demo) \<and>
   transfer (only_fault PS3) demo 10 11 2000 = (False, demo) \<and>
   transfer (only_fault PS4) demo 10 11 2000 = (False, demo) \<and>
   transfer (only_fault Commit) demo 10 11 2000 = (False, demo)"
  using transfer_fault_rolled_back [of demo "only_fault PS2" 10 11 2000]
    transfer_fault_rolled_back [of demo "only_fault PS3" 10 11 2000]
    transfer_fault_rolled_back [of demo "only_fault PS4" 10 11 2000]
    transfer_fault_rolled_back [of demo "only_fault Commit" 10 11 2000]
  by (simp add: only_fault_def demo_simps)

text \<open>
  A fault after the commit is not partway through the unit: when only the closing
  setAutoCommit(true) raises, transfer reports false although the unit is committed.
\<close>

lemma transfer_fault_after_commit:
  assumes "0 < amount" "0 \<le> from_id" "0 \<le> to_id"
    "accounts (working c) from_id = Some rf" "accounts (working c) to_id = Some rt"
    "amount \<le> r_balance rf"
    "quiet F [Get1, Get2, AutoCommitOff, PS1, PS2, PS3, PS4, Commit]" "F AutoCommitOn"
  shows "fst (transfer F c from_id to_id amount) = False \<and>
    committed (snd (transfer F c from_id to_id amount)) =
      after_transfer from_id to_id amount (working c)"
  using assms
  by (simp add: transfer_def transfer_stmts_def getAccount_def stmt_defs quiet_def
      Let_def after_transfer_def transfer_rows_def debit_def credit_def)

subsection \<open>What a failed call reports\<close>

text \<open>
  Claim C8 as stated fails: no pair of states, one where the account does not exist and one
  where it exists with too small a balance, makes withdraw or transfer report different
  results.
\<close>

theorem failure_results_coincide_counterexample:
  "\<not> (\<exists>F1 c1 i1 j1 a1 F2 c2 i2 j2 r a2.
        accounts (working c1) i1 = None \<and>
        accounts (working c2) i2 = Some r \<and> r_balance r < a2 \<and>
        (fst (withdraw F1 c1 i1 a1) \<noteq> fst (withdraw F2 c2 i2 a2) \<or>
         fst (transfer F1 c1 i1 j1 a1) \<noteq> fst (transfer F2 c2 i2 j2 a2)))"
proof
  assume "\<exists>F1 c1 i1 j1 a1 F2 c2 i2 j2 r a2.
        accounts (working c1) i1 = None \<and>
        accounts (working c2) i2 = Some r \<and> r_balance r < a2 \<and>
        (fst (withdraw F1 c1 i1 a1) \<noteq> fst (withdraw F2 c2 i2 a2) \<or>
         fst (transfer F1 c1 i1 j1 a1) \<noteq> fst (transfer F2 c2 i2 j2 a2))"
  then obtain F1 c1 i1 j1 a1 F2 c2 i2 j2 r a2 where
    m: "accounts (working c1) i1 = None" and
    p: "accounts (working c2) i2 = Some r" "r_balance r < a2" and
    d: "fst (withdraw F1 c1 i1 a1) \<noteq> fst (withdraw F2 c2 i2 a2) \<or>
        fst (transfer F1 c1 i1 j1 a1) \<noteq> fst (transfer F2 c2 i2 j2 a2)"
    by blast
  have "withdraw F1 c1 i1 a1 = (False, c1)" "withdraw F2 c2 i2 a2 = (False, c2)"
    "transfer F1 c1 i1 j1 a1 = (False, c1)" "transfer F2 c2 i2 j2 a2 = (False, c2)"
    using m p by (simp_all add: withdraw_missing withdraw_insufficient transfer_missing
        transfer_insufficient)
  with d show False by simp
qed

text \<open>
  Claim C8, amended. withdraw and transfer return a bare boolean: when the named account
  does not exist, and when it exists but its balance is below the amount, the result is
  false in both cases, so the result does not tell the two cases apart.
\<close>

theorem failure_results_coincide:
  assumes "accounts (working c1) i1 = None"
    and "accounts (working c2) i2 = Some r" "r_balance r < a2"
  shows "fst (withdraw F1 c1 i1 a1) = False \<and> fst (withdraw F2 c2 i2 a2) = False \<and>
    fst (transfer F1 c1 i1 j1 a1) = False \<and> fst (transfer F1 c1 j1 i1 a1) = False \<and>
    fst (transfer F2 c2 i2 j2 a2) = False"
  using withdraw_missing [OF assms(1)] withdraw_insufficient [OF assms(2,3)]
    transfer_missing [of c1 i1 j1] transfer_missing [of c1 j1 i1]
    transfer_insufficient [OF assms(2,3)] assms(1)
  by simp

theorem failure_results_coincide_witness:
  "fst (withdraw no_faults demo 99 100) = False \<and> fst (withdraw no_faults demo 11 100) = False \<and>
   fst (transfer no_faults demo 99 10 100) = False \<and>
   fst (transfer no_faults demo 10 99 100) = False \<and>
   fst (transfer no_faults demo 11 10 100) = False"
proof -
  have a: "accounts (working demo) 99 = None"
    and b: "accounts (working demo) 11 =
      Some \<lparr>r_customer_id = 1, r_type = ''CURRENT'', r_balance = 0\<rparr>"
    and c: "r_balance \<lparr>r_customer_id = 1, r_type = ''CURRENT'', r_balance = 0\<rparr> < 100"
    by (simp_all add: demo_simps)
  show ?thesis
    using failure_results_coincide [OF a b c, of no_faults 100 no_faults 10 10]
    by simp
qed

subsection \<open>createCustomer\<close>

lemma createCustomer_ok:
  assumes "\<not> F PS" "\<not> F ST" "next_customer_id c \<notin> c_id ` set (customers (working c))"
  shows "createCustomer F c name email phone =
    (next_customer_id c,
     (apply_write c ((working c)\<lparr>customers := customers (working c) @
        [\<lparr>c_id = next_customer_id c, c_name = name, c_email = email, c_phone = phone\<rparr>]\<rparr>))
       \<lparr>next_customer_id := next_customer_id c + 1, last_insert_id := next_customer_id c\<rparr>)"
  using assms
  by (simp add: createCustomer_def insert_customer_def select_last_insert_id_def)

lemma createCustomer_fault:
  "F PS \<Longrightarrow> createCustomer F c name email phone = (- 1, c)"
  by (simp add: createCustomer_def insert_customer_def)

text \<open>
  Claim C9 as stated fails: on the empty store, createCustomer with the empty name returns
  the identifier 1 and the Customer row is created.
\<close>

theorem createCustomer_empty_name_counterexample:
  "fst (createCustomer no_faults fresh [] ''a@x.com'' ''555-0100'') = 1 \<and>
   customers (committed (snd (createCustomer no_faults fresh [] ''a@x.com'' ''555-0100''))) =
     [\<lparr>c_id = 1, c_name = [], c_email = ''a@x.com'', c_phone = ''555-0100''\<rparr>]"
  by (simp add: createCustomer_def insert_customer_def select_last_insert_id_def
      apply_write_def no_faults_def fresh_def)

text \<open>
  Claim C9, amended. createCustomer does not check the name. For every name, the empty one
  included, when the store raises at neither statement and the counter value is unused, it
  returns the newly assigned identifier and appends one Customer row holding the arguments
  (durably so in autocommit mode). When the INSERT raises it returns -1 and the connection
  is unchanged.
\<close>

theorem createCustomer_spec:
  "(\<not> F PS \<and> \<not> F ST \<and> next_customer_id c \<notin> c_id ` set (customers (working c)) \<longrightarrow>
      fst (createCustomer F c name email phone) = next_customer_id c \<and>
      customers (working (snd (createCustomer F c name email phone))) =
        customers (working c) @
          [\<lparr>c_id = next_customer_id c, c_name = name, c_email = email, c_phone = phone\<rparr>] \<and>
      (autocommit c \<longrightarrow>
        customers (committed (snd (createCustomer F c name email phone))) =
          customers (working c) @
            [\<lparr>c_id = next_customer_id c, c_name = name, c_email = email, c_phone = phone\<rparr>])) \<and>
   (F PS \<longrightarrow> createCustomer F c name email phone = (- 1, c))"
  using createCustomer_ok [of F c name email phone] createCustomer_fault [of F c name email phone]
  by (auto simp add: apply_write_def)

theorem createCustomer_spec_witness:
  "fst (createCustomer no_faults demo [] [] []) = 2 \<and>
   customers (committed (snd (createCustomer no_faults demo [] [] []))) =
     customers demo_tables @ [\<lparr>c_id = 2, c_name = [], c_email = [], c_phone = []\<rparr>] \<and>
   fst (createCustomer no_faults demo ''Bob'' [] []) = 2 \<and>
   customers (committed (snd (createCustomer no_faults demo ''Bob'' [] []))) =
     customers demo_tables @ [\<lparr>c_id = 2, c_name = ''Bob'', c_email = [], c_phone = []\<rparr>] \<and>
   createCustomer (only_fault PS) demo ''Bob'' [] [] = (- 1, demo)"
proof -
  have n: "next_customer_id demo = 2" "customers (working demo) = customers demo_tables"
    "next_customer_id demo \<notin> c_id ` set (customers (working demo))" "autocommit demo"
    by (simp_all add: demo_def demo_tables_def)
  have 1: "fst (createCustomer no_faults demo [] [] []) = 2 \<and>
   customers (committed (snd (createCustomer no_faults demo [] [] []))) =
     customers demo_tables @ [\<lparr>c_id = 2, c_name = [], c_email = [], c_phone = []\<rparr>]"
    using createCustomer_spec [of no_faults demo "[]" "[]" "[]"] n
    by (simp add: no_faults_def)
  have 2: "fst (createCustomer no_faults demo ''Bob'' [] []) = 2 \<and>
   customers (committed (snd (createCustomer no_faults demo ''Bob'' [] []))) =
     customers demo_tables @ [\<lparr>c_id = 2, c_name = ''Bob'', c_email = [], c_phone = []\<rparr>]"
    using createCustomer_spec [of no_faults demo "''Bob''" "[]" "[]"] n
    by (simp add: no_faults_def)
  have 3: "createCustomer (only_fault PS) demo ''Bob'' [] [] = (- 1, demo)"
    using createCustomer_spec [of "only_fault PS" demo "''Bob''" "[]" "[]"]
    by (simp add: only_fault_def)
  from 1 2 3 show ?thesis by blast
qed

subsection \<open>No negative balance\<close>

lemma run_stmts_preserves:
  "list_all (preserves P) ss \<Longrightarrow> preserves P (run_stmts ss)"
proof (induction ss)
  case Nil
  then show ?case by (simp add: preserves_def conn_of_def)
next
  case (Cons s ss)
  then have s: "preserves P s" and ss: "preserves P (run_stmts ss)" by simp_all
  show ?case
    unfolding preserves_def
  proof (intro allI impI)
    fix c assume "P c"
    with s have "P (conn_of (s c))" by (simp add: preserves_def)
    with ss show "P (conn_of (run_stmts (s # ss) c))"
      by (cases "s c") (simp_all add: preserves_def conn_of_def)
  qed
qed

lemma solvent_setAutoCommit: "preserves solvent (setAutoCommit F s b)"
  by (simp add: preserves_def conn_of_def setAutoCommit_def solvent_def)

lemma solvent_commit: "preserves solvent (commit F s)"
  by (simp add: preserves_def conn_of_def commit_def solvent_def)

lemma solvent_rollback: "preserves solvent (rollback F s)"
  by (simp add: preserves_def conn_of_def rollback_def solvent_def)

lemma solvent_insert_transaction:
  "preserves solvent (insert_transaction F s account_id ty amount details)"
  by (simp add: preserves_def conn_of_def insert_transaction_def solvent_def apply_write_def
      no_overdraft_def)

lemma solvent_update_add:
  "0 \<le> amount \<Longrightarrow> preserves solvent (update_add F s amount account_id)"
  by (auto simp add: preserves_def conn_of_def update_add_def solvent_def apply_write_def
      no_overdraft_def split: option.splits)

lemma solvent_update_sub:
  assumes "solvent c" "\<forall>r. accounts (working c) account_id = Some r \<longrightarrow> amount \<le> r_balance r"
  shows "solvent (conn_of (update_sub F s amount account_id c))"
  using assms
  by (auto simp add: conn_of_def update_sub_def solvent_def apply_write_def
      no_overdraft_def split: option.splits)

lemma solvent_on_sql_exception: "solvent c \<Longrightarrow> solvent (on_sql_exception F c)"
  using run_stmts_preserves [of solvent "[rollback F Rollback, setAutoCommit F AutoCommitRestore True]"]
    solvent_rollback solvent_setAutoCommit
  by (simp add: on_sql_exception_def preserves_def conn_of_def)

lemma solvent_try_txn:
  assumes "solvent (conn_of (run_stmts ss c))"
  shows "solvent (snd (try_txn F ss c))"
  using assms solvent_on_sql_exception
  by (cases "run_stmts ss c") (simp_all add: try_txn_def conn_of_def)

lemma solvent_deposit: "solvent c \<Longrightarrow> solvent (snd (deposit F c account_id amount))"
proof (cases "amount \<le> 0")
  case True
  assume "solvent c"
  with True show ?thesis by (simp add: deposit_def)
next
  case False
  assume c: "solvent c"
  from False have "list_all (preserves solvent) (deposit_stmts F account_id amount)"
    by (simp add: deposit_stmts_def solvent_setAutoCommit solvent_commit
        solvent_insert_transaction solvent_update_add)
  from run_stmts_preserves [OF this] c
  have "solvent (conn_of (run_stmts (deposit_stmts F account_id amount) c))"
    by (simp add: preserves_def)
  then show ?thesis
    using False by (simp add: deposit_def solvent_try_txn)
qed

lemma solvent_debit_then:
  assumes c: "solvent c"
    and b: "\<forall>r. accounts (working c) account_id = Some r \<longrightarrow> amount \<le> r_balance r"
    and rest: "list_all (preserves solvent) ss"
  shows "solvent (conn_of (run_stmts
    (setAutoCommit F AutoCommitOff False # update_sub F PS1 amount account_id # ss) c))"
proof (cases "F AutoCommitOff")
  case True
  with c show ?thesis by (simp add: setAutoCommit_def conn_of_def)
next
  case False
  let ?c1 = "c\<lparr>autocommit := False\<rparr>"
  have c1: "solvent ?c1" using c by (simp add: solvent_def)
  have b1: "\<forall>r. accounts (working ?c1) account_id = Some r \<longrightarrow> amount \<le> r_balance r"
    using b by simp
  have s2: "solvent (conn_of (update_sub F PS1 amount account_id ?c1))"
    by (rule solvent_update_sub [OF c1 b1])
  show ?thesis
  proof (cases "update_sub F PS1 amount account_id ?c1")
    case (Threw c')
    with s2 False show ?thesis by (simp add: setAutoCommit_def conn_of_def)
  next
    case (Done c')
    with s2 have "solvent c'" by (simp add: conn_of_def)
    with run_stmts_preserves [OF rest] have "solvent (conn_of (run_stmts ss c'))"
      by (simp add: preserves_def)
    with Done False show ?thesis by (simp add: setAutoCommit_def)
  qed
qed

lemma solvent_withdraw: "solvent c \<Longrightarrow> solvent (snd (withdraw F c account_id amount))"
proof -
  assume c: "solvent c"
  show ?thesis
  proof (cases "0 < amount \<and> 0 \<le> a_id (getAccount F Get1 c account_id) \<and>
      amount \<le> a_balance (getAccount F Get1 c account_id)")
    case False
    with c show ?thesis by (auto simp add: withdraw_def Let_def)
  next
    case True
    then have b: "\<forall>r. accounts (working c) account_id = Some r \<longrightarrow> amount \<le> r_balance r"
      by (auto simp add: getAccount_def split: if_splits)
    have "solvent (conn_of (run_stmts (withdraw_stmts F account_id amount) c))"
      unfolding withdraw_stmts_def
      by (rule solvent_debit_then [OF c b])
        (simp add: solvent_setAutoCommit solvent_commit solvent_insert_transaction)
    with True show ?thesis
      by (simp add: withdraw_def Let_def solvent_try_txn not_less [symmetric])
  qed
qed

lemma solvent_transfer: "solvent c \<Longrightarrow> solvent (snd (transfer F c from_id to_id amount))"
proof -
  assume c: "solvent c"
  show ?thesis
  proof (cases "0 < amount \<and> 0 \<le> a_id (getAccount F Get1 c from_id) \<and>
      0 \<le> a_id (getAccount F Get2 c to_id) \<and>
      amount \<le> a_balance (getAccount F Get1 c from_id)")
    case False
    with c show ?thesis by (auto simp add: transfer_def Let_def)
  next
    case True
    then have b: "\<forall>r. accounts (working c) from_id = Some r \<longrightarrow> amount \<le> r_balance r"
      by (auto simp add: getAccount_def split: if_splits)
    from True have pos: "0 \<le> amount" by simp
    have "solvent (conn_of (run_stmts (transfer_stmts F from_id to_id amount) c))"
      unfolding transfer_stmts_def
      by (rule solvent_debit_then [OF c b])
        (simp add: solvent_setAutoCommit solvent_commit solvent_insert_transaction
          solvent_update_add [OF pos])
    with True show ?thesis
      by (simp add: transfer_def Let_def solvent_try_txn not_less [symmetric])
  qed
qed

lemma solvent_createCustomer: "solvent c \<Longrightarrow> solvent (snd (createCustomer F c name email phone))"
  by (simp add: createCustomer_def insert_customer_def select_last_insert_id_def
      apply_write_def solvent_def no_overdraft_def)

lemma solvent_createAccount: "solvent c \<Longrightarrow> solvent (snd (createAccount F c customer_id ty))"
  by (simp add: createAccount_def insert_account_def select_last_insert_id_def
      apply_write_def solvent_def no_overdraft_def)

lemma solvent_perform: "solvent c \<Longrightarrow> solvent (perform F x c)"
  by (cases x) (simp_all add: solvent_createCustomer solvent_createAccount solvent_deposit
      solvent_withdraw solvent_transfer)

lemma solvent_run: "solvent c \<Longrightarrow> solvent (run ops c)"
  by (induction ops arbitrary: c) (auto simp add: solvent_perform)

lemma solvent_fresh: "solvent fresh"
  by (simp add: solvent_def fresh_def no_overdraft_def)

text \<open>
  Claim C2. Start from the empty store and perform any finite sequence of createCustomer,
  createAccount, deposit, withdraw and transfer calls, each under any fault plan. Then every
  account has a balance of at least zero, in the committed tables and in the tables the
  connection sees. Every prefix of a sequence is a sequence, so this holds after each
  operation.
\<close>

theorem balance_never_negative:
  "(accounts (committed (run ops fresh)) account_id = Some r \<longrightarrow> 0 \<le> r_balance r) \<and>
   (accounts (working (run ops fresh)) account_id = Some r \<longrightarrow> 0 \<le> r_balance r)"
  using solvent_run [OF solvent_fresh, of ops]
  by (simp add: solvent_def no_overdraft_def)

lemmas op_defs = createCustomer_def createAccount_def insert_customer_def insert_account_def
  select_last_insert_id_def deposit_def deposit_stmts_def withdraw_def withdraw_stmts_def
  transfer_def transfer_stmts_def getAccount_def stmt_defs Let_def

lemma show_int_12: "show_int 1 = ''1''" "show_int 2 = ''2''"
  by code_simp+

lemma run_demo_ops:
  "accounts (committed (run demo_ops fresh)) 1 =
     Some \<lparr>r_customer_id = 1, r_type = ''SAVINGS'', r_balance = 2000\<rparr>"
  "accounts (committed (run demo_ops fresh)) 2 =
     Some \<lparr>r_customer_id = 1, r_type = ''CURRENT'', r_balance = 1000\<rparr>"
  "transactions (committed (run demo_ops fresh)) =
     [\<lparr>t_account_id = 1, t_type = DEPOSIT, t_amount = 5000, t_details = ''Deposit via app''\<rparr>,
      \<lparr>t_account_id = 1, t_type = WITHDRAW, t_amount = 2000, t_details = ''Withdrawal via app''\<rparr>,
      \<lparr>t_account_id = 1, t_type = TRANSFER, t_amount = 1000, t_details = ''Transfer to account 2''\<rparr>,
      \<lparr>t_account_id = 2, t_type = DEPOSIT, t_amount = 1000, t_details = ''Transfer from account 1''\<rparr>]"
  "working (run demo_ops fresh) = committed (run demo_ops fresh)"
  by (simp_all add: demo_ops_def fresh_def op_defs no_faults_def only_fault_def show_int_12)

theorem balance_never_negative_witness:
  "accounts (committed (run demo_ops fresh)) 1 =
     Some \<lparr>r_customer_id = 1, r_type = ''SAVINGS'', r_balance = 2000\<rparr> \<and>
   0 \<le> r_balance \<lparr>r_customer_id = 1, r_type = ''SAVINGS'', r_balance = 2000\<rparr>"
  using balance_never_negative [of demo_ops 1
      "\<lparr>r_customer_id = 1, r_type = ''SAVINGS'', r_balance = 2000\<rparr>"]
    run_demo_ops(1)
  by blast

subsection \<open>Reconciliation\<close>

lemma deposit_outcomes:
  assumes "\<not> F Rollback" "0 < amount" "accounts (working c) account_id \<noteq> None"
  shows "unit_result c (after_deposit account_id amount (working c))
    (snd (deposit F c account_id amount))"
  using assms
  by (auto simp add: deposit_def deposit_stmts_def stmt_defs unit_result_def after_deposit_def
      credit_def)

lemma deposit_outcomes_missing:
  assumes "\<not> F Rollback" "0 < amount" "accounts (working c) account_id = None"
  shows "working (snd (deposit F c account_id amount)) = committed c \<and>
    committed (snd (deposit F c account_id amount)) = committed c"
  using assms
  by (simp add: deposit_def deposit_stmts_def stmt_defs)

lemma withdraw_outcomes:
  assumes "\<not> F Rollback" "0 < amount" "accounts (working c) account_id = Some r"
    "amount \<le> r_balance r" "0 \<le> account_id" "\<not> F Get1"
  shows "unit_result c (after_withdraw account_id amount (working c))
    (snd (withdraw F c account_id amount))"
  using assms
  by (auto simp add: withdraw_def withdraw_stmts_def getAccount_def stmt_defs unit_result_def
      after_withdraw_def debit_def)

lemma withdraw_declines:
  assumes "\<not> (0 < amount \<and> (\<exists>r. accounts (working c) account_id = Some r \<and>
    amount \<le> r_balance r) \<and> 0 \<le> account_id \<and> \<not> F Get1)"
  shows "withdraw F c account_id amount = (False, c)"
  using assms
  by (auto simp add: withdraw_def getAccount_def Let_def split: option.splits)

lemma transfer_outcomes:
  assumes "\<not> F Rollback" "0 < amount" "accounts (working c) from_id = Some rf"
    "accounts (working c) to_id = Some rt"
    "amount \<le> r_balance rf" "0 \<le> from_id" "0 \<le> to_id" "\<not> F Get1" "\<not> F Get2"
  shows "unit_result c (after_transfer from_id to_id amount (working c))
    (snd (transfer F c from_id to_id amount))"
  using assms
  by (simp add: transfer_def transfer_stmts_def getAccount_def stmt_defs unit_result_def
      after_transfer_def debit_def credit_def transfer_rows_def)

lemma transfer_declines:
  assumes "\<not> (0 < amount \<and> (\<exists>r. accounts (working c) from_id = Some r \<and>
    amount \<le> r_balance r) \<and> accounts (working c) to_id \<noteq> None \<and>
    0 \<le> from_id \<and> 0 \<le> to_id \<and> \<not> F Get1 \<and> \<not> F Get2)"
  shows "transfer F c from_id to_id amount = (False, c)"
  using assms
  by (auto simp add: transfer_def getAccount_def Let_def split: option.splits)

lemma ledger_sum_append:
  "ledger_sum (t\<lparr>accounts := m, transactions := transactions t @ xs\<rparr>) i =
     ledger_sum t i + sum_list (map signed_amount (filter (\<lambda>x. t_account_id x = i) xs))"
  by (simp add: ledger_sum_def)

lemma reconciled_after_deposit:
  "reconciled t \<Longrightarrow> accounts t account_id \<noteq> None \<Longrightarrow>
   reconciled (after_deposit account_id amount t)"
  unfolding reconciled_def after_deposit_def ledger_sum_append
  by (auto simp add: credit_def split: option.splits)

lemma reconciled_after_withdraw:
  "reconciled t \<Longrightarrow> accounts t account_id \<noteq> None \<Longrightarrow>
   reconciled (after_withdraw account_id amount t)"
  unfolding reconciled_def after_withdraw_def ledger_sum_append
  by (auto simp add: debit_def split: option.splits)

lemma reconciled_after_transfer:
  "reconciled t \<Longrightarrow> accounts t from_id \<noteq> None \<Longrightarrow> accounts t to_id \<noteq> None \<Longrightarrow>
   reconciled (after_transfer from_id to_id amount t)"
  unfolding reconciled_def after_transfer_def ledger_sum_append
  by (auto simp add: debit_def credit_def transfer_rows_def split: option.splits)

lemma consistent_unit_result:
  "consistent c \<Longrightarrow> reconciled t \<Longrightarrow> unit_result c t c' \<Longrightarrow> consistent c'"
  by (auto simp add: consistent_def unit_result_def)

lemma consistent_deposit:
  assumes c: "consistent c" and rb: "\<not> F Rollback"
  shows "consistent (snd (deposit F c account_id amount))"
proof (cases "0 < amount")
  case False
  with c show ?thesis by (simp add: deposit_def)
next
  case pos: True
  show ?thesis
  proof (cases "accounts (working c) account_id")
    case None
    from deposit_outcomes_missing [of F amount c account_id] rb pos None c show ?thesis
      by (simp add: consistent_def)
  next
    case (Some r)
    then have ex: "accounts (working c) account_id \<noteq> None" by simp
    from c have "reconciled (after_deposit account_id amount (working c))"
      by (simp add: consistent_def reconciled_after_deposit [OF _ ex])
    moreover have "unit_result c (after_deposit account_id amount (working c))
        (snd (deposit F c account_id amount))"
      using deposit_outcomes [of F amount c account_id] rb pos ex by simp
    ultimately show ?thesis
      using c consistent_unit_result by blast
  qed
qed

lemma consistent_withdraw:
  assumes c: "consistent c" and rb: "\<not> F Rollback"
  shows "consistent (snd (withdraw F c account_id amount))"
proof (cases "0 < amount \<and> (\<exists>r. accounts (working c) account_id = Some r \<and>
    amount \<le> r_balance r) \<and> 0 \<le> account_id \<and> \<not> F Get1")
  case False
  from withdraw_declines [of amount c account_id F] False c show ?thesis by simp
next
  case True
  then obtain r where r: "accounts (working c) account_id = Some r" "amount \<le> r_balance r"
    by blast
  then have ex: "accounts (working c) account_id \<noteq> None" by simp
  from c have t: "reconciled (after_withdraw account_id amount (working c))"
    by (simp add: consistent_def reconciled_after_withdraw [OF _ ex])
  from True have "unit_result c (after_withdraw account_id amount (working c))
      (snd (withdraw F c account_id amount))"
    using withdraw_outcomes [of F amount c account_id r] rb r by simp
  with c t show ?thesis
    by (rule consistent_unit_result)
qed

lemma consistent_transfer:
  assumes c: "consistent c" and rb: "\<not> F Rollback"
  shows "consistent (snd (transfer F c from_id to_id amount))"
proof (cases "0 < amount \<and> (\<exists>r. accounts (working c) from_id = Some r \<and>
    amount \<le> r_balance r) \<and> accounts (working c) to_id \<noteq> None \<and>
    0 \<le> from_id \<and> 0 \<le> to_id \<and> \<not> F Get1 \<and> \<not> F Get2")
  case False
  from transfer_declines [of amount c from_id to_id F] False c show ?thesis by simp
next
  case True
  then obtain rf rt where r: "accounts (working c) from_id = Some rf"
    "accounts (working c) to_id = Some rt" "amount \<le> r_balance rf"
    by blast
  then have ex: "accounts (working c) from_id \<noteq> None" "accounts (working c) to_id \<noteq> None"
    by simp_all
  from c have t: "reconciled (after_transfer from_id to_id amount (working c))"
    by (simp add: consistent_def reconciled_after_transfer [OF _ ex])
  from True have "unit_result c (after_transfer from_id to_id amount (working c))
      (snd (transfer F c from_id to_id amount))"
    using transfer_outcomes [of F amount c from_id rf to_id rt] rb r by simp
  with c t show ?thesis
    by (rule consistent_unit_result)
qed

lemma reconciled_customers:
  "reconciled (t\<lparr>customers := cs\<rparr>) = reconciled t"
  by (simp add: reconciled_def ledger_sum_def)

lemma reconciled_new_account:
  assumes r: "reconciled t" and k: "accounts t k = None"
  shows "reconciled (t\<lparr>accounts := (accounts t)(k \<mapsto> row\<lparr>r_balance := 0\<rparr>)\<rparr>)"
  unfolding reconciled_def
proof
  fix i
  from r have "(case accounts t i of None \<Rightarrow> 0 | Some r \<Rightarrow> r_balance r) = ledger_sum t i"
    unfolding reconciled_def by (rule spec)
  with k show "(case accounts (t\<lparr>accounts := (accounts t)(k \<mapsto> row\<lparr>r_balance := 0\<rparr>)\<rparr>) i of
      None \<Rightarrow> 0 | Some r \<Rightarrow> r_balance r) =
    ledger_sum (t\<lparr>accounts := (accounts t)(k \<mapsto> row\<lparr>r_balance := 0\<rparr>)\<rparr>) i"
    by (cases "i = k") (simp_all add: ledger_sum_def)
qed

lemma reconciledD:
  assumes "reconciled t" "accounts t i = Some r"
  shows "r_balance r = ledger_sum t i"
proof -
  from assms(1) have "(case accounts t i of None \<Rightarrow> 0 | Some r \<Rightarrow> r_balance r) = ledger_sum t i"
    unfolding reconciled_def by (rule spec)
  with assms(2) show ?thesis by simp
qed

lemma consistent_createCustomer:
  "consistent c \<Longrightarrow> consistent (snd (createCustomer F c name email phone))"
  by (simp add: createCustomer_def insert_customer_def select_last_insert_id_def
      apply_write_def consistent_def reconciled_customers)

lemma consistent_createAccount:
  "consistent c \<Longrightarrow> consistent (snd (createAccount F c customer_id ty))"
proof -
  assume c: "consistent c"
  let ?row = "\<lparr>r_customer_id = customer_id, r_type = ty, r_balance = 0\<rparr>"
  have row: "?row = ?row\<lparr>r_balance := 0\<rparr>" by simp
  show ?thesis
  proof (cases "insert_account F PS customer_id ty c")
    case (Threw c')
    then have "c' = c"
      by (simp add: insert_account_def split: if_splits)
    with Threw c show ?thesis by (simp add: createAccount_def)
  next
    case (Done c')
    then have free: "accounts (working c) (next_account_id c) = None"
      and c': "c' = (apply_write c ((working c)\<lparr>accounts := (accounts (working c))
        (next_account_id c \<mapsto> ?row)\<rparr>))
          \<lparr>next_account_id := next_account_id c + 1, last_insert_id := next_account_id c\<rparr>"
      by (simp_all add: insert_account_def split: if_splits)
    from c have "reconciled ((working c)\<lparr>accounts := (accounts (working c))
        (next_account_id c \<mapsto> ?row)\<rparr>)"
      using reconciled_new_account [of "working c" "next_account_id c" ?row] free
      by (simp add: consistent_def)
    with c c' have "consistent c'"
      by (simp add: consistent_def apply_write_def)
    with Done show ?thesis
      by (simp add: createAccount_def select_last_insert_id_def)
  qed
qed

lemma consistent_perform:
  "consistent c \<Longrightarrow> \<not> F Rollback \<Longrightarrow> consistent (perform F x c)"
  by (cases x) (simp_all add: consistent_createCustomer consistent_createAccount
      consistent_deposit consistent_withdraw consistent_transfer)

lemma consistent_run:
  "consistent c \<Longrightarrow> list_all (\<lambda>(F, x). \<not> F Rollback) ops \<Longrightarrow> consistent (run ops c)"
  by (induction ops arbitrary: c) (auto simp add: consistent_perform)

lemma consistent_fresh: "consistent fresh"
  by (simp add: consistent_def fresh_def reconciled_def ledger_sum_def)

text \<open>
  Claim C3. Start from the empty store and perform any finite sequence of calls in which
  no rollback raises (so that a call either commits its whole unit or leaves nothing).
  Then the balance of every account equals the sum of the signed amounts of the rows of the
  log that reference it, DEPOSIT counting positive, WITHDRAW and TRANSFER negative.
\<close>

theorem balance_is_ledger_sum:
  assumes "list_all (\<lambda>(F, x). \<not> F Rollback) ops"
  shows "(accounts (committed (run ops fresh)) account_id = Some r \<longrightarrow>
      r_balance r = ledger_sum (committed (run ops fresh)) account_id) \<and>
    (accounts (working (run ops fresh)) account_id = Some r \<longrightarrow>
      r_balance r = ledger_sum (working (run ops fresh)) account_id)"
proof -
  from consistent_run [OF consistent_fresh assms]
  have "reconciled (committed (run ops fresh))" "reconciled (working (run ops fresh))"
    by (simp_all add: consistent_def)
  then show ?thesis
    using reconciledD by blast
qed

theorem balance_is_ledger_sum_witness:
  "accounts (committed (run demo_ops fresh)) 1 =
     Some \<lparr>r_customer_id = 1, r_type = ''SAVINGS'', r_balance = 2000\<rparr> \<and>
   ledger_sum (committed (run demo_ops fresh)) 1 = 5000 - 2000 - 1000 \<and>
   r_balance \<lparr>r_customer_id = 1, r_type = ''SAVINGS'', r_balance = 2000\<rparr> =
     ledger_sum (committed (run demo_ops fresh)) 1"
proof -
  have ok: "list_all (\<lambda>(F, x). \<not> F Rollback) demo_ops"
    by (simp add: demo_ops_def no_faults_def only_fault_def)
  have s: "ledger_sum (committed (run demo_ops fresh)) 1 = 5000 - 2000 - 1000"
    by (simp add: ledger_sum_def run_demo_ops(3))
  from balance_is_ledger_sum [OF ok, of 1
      "\<lparr>r_customer_id = 1, r_type = ''SAVINGS'', r_balance = 2000\<rparr>"] run_demo_ops(1) s
  show ?thesis by blast
qed

subsection \<open>Two callers on one account\<close>

lemma withdraw_split:
  "withdraw F c account_id amount =
     (if withdraw_check F c account_id amount
      then try_txn F (withdraw_stmts F account_id amount) c else (False, c))"
  by (simp add: withdraw_def withdraw_check_def Let_def)

lemma withdraw_check_iff:
  "0 \<le> account_id \<Longrightarrow> accounts (working c) account_id = Some r \<Longrightarrow>
   withdraw_check no_faults c account_id amount = (0 < amount \<and> amount \<le> r_balance r)"
  by (auto simp add: withdraw_check_def getAccount_def no_faults_def)

lemma withdraw_txn_no_faults:
  "accounts (working c) account_id = Some r \<Longrightarrow>
   try_txn no_faults (withdraw_stmts no_faults account_id amount) c =
     (True, settled c ((working c)\<lparr>
           accounts := (accounts (working c))
             (account_id \<mapsto> r\<lparr>r_balance := r_balance r - amount\<rparr>),
           transactions := transactions (working c) @
             [\<lparr>t_account_id = account_id, t_type = WITHDRAW, t_amount = amount,
               t_details = ''Withdrawal via app''\<rparr>]\<rparr>))"
  by (simp add: withdraw_stmts_def stmt_defs no_faults_def settled_def)

lemma one_caller_is_withdraw:
  "foldl (client_step account_id amount) \<lparr>server = c, phases = [Checking]\<rparr> [0, 0] =
     \<lparr>server = snd (withdraw no_faults c account_id amount),
      phases = [Returned (fst (withdraw no_faults c account_id amount))]\<rparr>"
  by (simp add: client_step_def withdraw_split split: prod.splits)

text \<open>
  Claim C4 as stated fails: with 100.00 on the account and two callers withdrawing 100.00,
  the schedule check, check, transaction, transaction makes both calls return true and
  leaves the balance at -100.00.
\<close>

theorem concurrent_withdraw_counterexample:
  "results 11 (interleave 11 10000 [0, 1, 0, 1] hundred) =
     ([Returned True, Returned True], Some (- 10000))"
  by (simp add: results_def interleave_def client_step_def withdraw_check_def getAccount_def
      withdraw_stmts_def stmt_defs no_faults_def hundred_def balance_of_def demo_tables_def)

lemmas race_defs = results_def interleave_def client_step_def withdraw_check_def getAccount_def
  withdraw_stmts_def stmt_defs no_faults_def balance_of_def

lemma sequential_results:
  assumes "0 \<le> account_id" "0 < amount" "accounts (working c) account_id = Some r"
    "r_balance r = amount" "working c = committed c" "autocommit c"
  shows "results account_id (interleave account_id amount [0, 0, 1, 1] c) =
      ([Returned True, Returned False], Some 0)"
    and "results account_id (interleave account_id amount [1, 1, 0, 0] c) =
      ([Returned False, Returned True], Some 0)"
  using assms by (simp_all add: race_defs)

lemma interleaved_results:
  assumes "0 \<le> account_id" "0 < amount" "accounts (working c) account_id = Some r"
    "r_balance r = amount" "working c = committed c" "autocommit c"
  shows "results account_id (interleave account_id amount [0, 1, 0, 1] c) =
      ([Returned True, Returned True], Some (- amount))"
    and "results account_id (interleave account_id amount [0, 1, 1, 0] c) =
      ([Returned True, Returned True], Some (- amount))"
    and "results account_id (interleave account_id amount [1, 0, 0, 1] c) =
      ([Returned True, Returned True], Some (- amount))"
    and "results account_id (interleave account_id amount [1, 0, 1, 0] c) =
      ([Returned True, Returned True], Some (- amount))"
  using assms by (simp_all add: race_defs)

text \<open>
  Claim C4, amended. On an account whose balance equals the amount, two withdraw calls that
  run one after the other give exactly one success and one decline and the final balance
  0. The check and the mutation are separate steps with neither lock nor re-check: in each
  of the four schedules where both checks come before either transaction, both calls
  succeed and the final balance is minus the amount.
\<close>

theorem concurrent_withdraw_results:
  assumes "0 \<le> account_id" "0 < amount" "accounts (working c) account_id = Some r"
    "r_balance r = amount" "working c = committed c" "autocommit c"
  shows "results account_id (interleave account_id amount [0, 0, 1, 1] c) =
      ([Returned True, Returned False], Some 0) \<and>
    results account_id (interleave account_id amount [1, 1, 0, 0] c) =
      ([Returned False, Returned True], Some 0) \<and>
    results account_id (interleave account_id amount [0, 1, 0, 1] c) =
      ([Returned True, Returned True], Some (- amount)) \<and>
    results account_id (interleave account_id amount [0, 1, 1, 0] c) =
      ([Returned True, Returned True], Some (- amount)) \<and>
    results account_id (interleave account_id amount [1, 0, 0, 1] c) =
      ([Returned True, Returned True], Some (- amount)) \<and>
    results account_id (interleave account_id amount [1, 0, 1, 0] c) =
      ([Returned True, Returned True], Some (- amount))"
  using sequential_results [OF assms] interleaved_results [OF assms]
  by blast

lemma hundred_simps:
  "accounts (working hundred) 11 =
     Some \<lparr>r_customer_id = 1, r_type = ''CURRENT'', r_balance = 10000\<rparr>"
  "working hundred = committed hundred" "autocommit hundred"
  by (simp_all add: hundred_def)

theorem concurrent_withdraw_results_witness:
  "results 11 (interleave 11 10000 [0, 0, 1, 1] hundred) =
      ([Returned True, Returned False], Some 0) \<and>
   results 11 (interleave 11 10000 [1, 1, 0, 0] hundred) =
      ([Returned False, Returned True], Some 0) \<and>
   results 11 (interleave 11 10000 [1, 0, 0, 1] hundred) =
      ([Returned True, Returned True], Some (- 10000))"
proof -
  have n: "(0::int) \<le> 11" "(0::int) < 10000"
    "r_balance \<lparr>r_customer_id = 1, r_type = ''CURRENT'', r_balance = 10000\<rparr> = 10000"
    by simp_all
  from concurrent_withdraw_results [OF n(1,2) hundred_simps(1) n(3) hundred_simps(2,3)]
  show ?thesis by blast
qed

end
